theory Spec2Isabelle
  imports Main "HOL-Library.Sublist" "HOL-Library.Multiset"
begin

unbundle bit_operations_syntax

section \<open>The XML2RFC v2 rendering backend (xml2rfcv2.go)\<close>

text \<open>
  The renderer is a Go struct \<open>Xml2\<close> whose methods append markup to a
  \<open>bytes.Buffer\<close>. Here the buffer is a \<open>string\<close> (a list of bytes), the struct is a
  record, and every method takes the receiver and the buffer and returns both.
  Go's \<open>int\<close> is modelled by \<open>int\<close>: the values are heading depths and flag words.
\<close>

subsection \<open>Data\<close>

text \<open>The types \<open>IAL\<close> and \<open>title\<close> are declared in other files of the package.\<close>

typedecl IAL
typedecl title

record Xml2 =
  flags :: int
  sectionLevel :: int
  docLevel :: int
  ial :: "IAL list"
  titleBlock :: "title option"

text \<open>
  The constants \<open>XML_STANDALONE\<close>, \<open>DOC_*_MATTER\<close> and \<open>LIST_TYPE_*\<close> are declared in
  other files of the package; the methods take them as a parameter.
\<close>

record decls =
  XML_STANDALONE :: int
  DOC_FRONT_MATTER :: int
  DOC_MAIN_MATTER :: int
  DOC_BACK_MATTER :: int
  LIST_TYPE_ORDERED :: int
  LIST_TYPE_DEFINITION :: int

text \<open>
  Of the struct \<open>citation\<close> the renderer reads the fields \<open>typ\<close> (here \<open>typ'\<close>) and
  \<open>filename\<close>; the rest of the struct is the record's extension.
\<close>

record citation =
  typ' :: char
  filename :: string

text \<open>
  A content callback \<open>func() bool\<close> is a closure over the renderer and the buffer: called
  with both, it returns its flag, the renderer as it leaves it, and the bytes it has
  written to the end of the buffer.
\<close>

type_synonym content = "Xml2 \<Rightarrow> string \<Rightarrow> bool \<times> Xml2 \<times> string"

subsection \<open>Pending attributes\<close>

definition SetIAL :: "Xml2 \<Rightarrow> IAL list \<Rightarrow> Xml2" where
  "SetIAL options i = options\<lparr>ial := ial options @ i\<rparr>"

definition GetAndResetIAL :: "Xml2 \<Rightarrow> IAL list \<times> Xml2" where
  "GetAndResetIAL options = (let i = ial options in (i, options\<lparr>ial := []\<rparr>))"

text \<open>
  \<open>Xml2Renderer\<close> returns \<open>&Xml2{flags: flags}\<close>: every other field has Go's zero value.
\<close>

definition Xml2Renderer :: "int \<Rightarrow> Xml2" where
  "Xml2Renderer fl = \<lparr>flags = fl, sectionLevel = 0, docLevel = 0, ial = [], titleBlock = None\<rparr>"

subsection \<open>Headers\<close>

text \<open>The loop \<open>for i := options.sectionLevel - level + 1; i > 0; i--\<close> of \<open>Header\<close>.\<close>

function Header_loop :: "int \<Rightarrow> string \<Rightarrow> string" where
  "Header_loop i out =
     (if i > 0 then Header_loop (i - 1) (out @ ''</section>\<newline>'') else out)"
  by pat_completeness auto
termination
  by (relation "measure (\<lambda>(i, out). nat i)") auto

definition Header :: "Xml2 \<Rightarrow> string \<Rightarrow> content \<Rightarrow> int \<Rightarrow> string \<Rightarrow> bool \<Rightarrow> Xml2 \<times> string" where
  "Header options out text level ident quote =
     (if quote then
        (let out1 = out @ ''<name>'';
             (r, options1, w) = text options out1;
             out2 = out1 @ w;
             out3 = out2 @ ''</name>\<newline>''
         in (options1, out3))
      else
        (let out1 = (if level \<le> sectionLevel options
                     then Header_loop (sectionLevel options - level + 1) out
                     else out);
             out2 = out1 @ (''\<newline><section anchor=\"'' @ ident @ ''\">\<newline>'');
             out3 = out2 @ ''<name>'';
             (r, options1, w) = text options out3;
             out4 = out3 @ w;
             out5 = out4 @ ''</name>\<newline>''
         in (options1\<lparr>sectionLevel := level\<rparr>, out5)))"

subsection \<open>Lists and paragraphs\<close>

text \<open>The decimal rendering of \<open>fmt.Sprintf("%d", n)\<close>.\<close>

fun digits :: "nat \<Rightarrow> string" where
  "digits n =
     (if n < 10 then [char_of (48 + n)]
      else digits (n div 10) @ [char_of (48 + n mod 10)])"

definition itoa :: "int \<Rightarrow> string" where
  "itoa i = (if i < 0 then CHR ''-'' # digits (nat (- i)) else digits (nat i))"

text \<open>\<open>out.Truncate(marker)\<close> keeps the first \<open>marker\<close> bytes of the buffer.\<close>

definition List' :: "decls \<Rightarrow> Xml2 \<Rightarrow> string \<Rightarrow> content \<Rightarrow> int \<Rightarrow> int \<Rightarrow> Xml2 \<times> string" where
  "List' d options out text lflags start =
     (let marker = length out;
          out1 = (if lflags AND LIST_TYPE_ORDERED d \<noteq> 0 then
                    (if start \<le> 1 then out @ ''<ol>\<newline>''
                     else out @ (''<ol start=\"'' @ itoa start @ ''\">\<newline>''))
                  else if lflags AND LIST_TYPE_DEFINITION d \<noteq> 0 then out @ ''<dl>\<newline>''
                  else out @ ''<ul>\<newline>'');
          (r, options1, w) = text options out1;
          out2 = out1 @ w
      in if \<not> r then (options1, take marker out2)
         else if lflags AND LIST_TYPE_ORDERED d \<noteq> 0 then (options1, out2 @ ''</ol>\<newline>'')
         else if lflags AND LIST_TYPE_DEFINITION d \<noteq> 0 then (options1, out2 @ ''</dl>\<newline>'')
         else (options1, out2 @ ''</ul>\<newline>''))"

definition Paragraph :: "Xml2 \<Rightarrow> string \<Rightarrow> content \<Rightarrow> Xml2 \<times> string" where
  "Paragraph options out text =
     (let marker = length out;
          out1 = out @ ''<t>'';
          (r, options1, w) = text options out1;
          out2 = out1 @ w
      in if \<not> r then (options1, take marker out2)
         else (options1, out2 @ ''</t>\<newline>''))"

subsection \<open>Images\<close>

definition Image' :: "Xml2 \<Rightarrow> string \<Rightarrow> string \<Rightarrow> string \<Rightarrow> string \<Rightarrow> Xml2 \<times> string" where
  "Image' options out link ttl alt =
     (if prefix ''http://'' link \<or> prefix ''https://'' link then
        (options, (((out @ (CHR 0x5C # ''href{'')) @ link) @ ''}{'') @ alt @ ''}'')
      else
        (options, ((out @ (CHR 0x5C # ''includegraphics{'')) @ link) @ ''}''))"

subsection \<open>Document header, footer and matter\<close>

definition DocumentHeader :: "decls \<Rightarrow> Xml2 \<Rightarrow> string \<Rightarrow> bool \<Rightarrow> Xml2 \<times> string" where
  "DocumentHeader d options out first =
     (if \<not> first \<or> flags options AND XML_STANDALONE d = 0 then (options, out)
      else (options, out @ ''<?xml version=\"1.0\" encoding=\"UTF-8\"?>\<newline>''))"

text \<open>The loop \<open>for i := options.sectionLevel; i > 0; i--\<close> of \<open>DocumentFooter\<close>.\<close>

function DocumentFooter_loop :: "int \<Rightarrow> Xml2 \<Rightarrow> string \<Rightarrow> Xml2 \<times> string" where
  "DocumentFooter_loop i options out =
     (if i > 0 then
        DocumentFooter_loop (i - 1) (options\<lparr>sectionLevel := sectionLevel options - 1\<rparr>)
          (out @ ''</section>\<newline>'')
      else (options, out))"
  by pat_completeness auto
termination
  by (relation "measure (\<lambda>(i, options, out). nat i)") auto

definition DocumentFooter :: "decls \<Rightarrow> Xml2 \<Rightarrow> string \<Rightarrow> bool \<Rightarrow> Xml2 \<times> string" where
  "DocumentFooter d options out first =
     (if \<not> first \<or> flags options AND XML_STANDALONE d = 0 then (options, out)
      else
        (let (options1, out1) = DocumentFooter_loop (sectionLevel options) options out;
             out2 = (if docLevel options1 = DOC_FRONT_MATTER d then out1 @ ''</front>\<newline>''
                     else if docLevel options1 = DOC_MAIN_MATTER d then out1 @ ''</middle>\<newline>''
                     else if docLevel options1 = DOC_BACK_MATTER d then out1 @ ''</back>\<newline>''
                     else out1)
         in (options1, out2 @ ''</rfc>\<newline>'')))"

definition DocumentMatter :: "decls \<Rightarrow> Xml2 \<Rightarrow> string \<Rightarrow> int \<Rightarrow> Xml2 \<times> string" where
  "DocumentMatter d options out matter =
     (let out1 = (if matter = DOC_FRONT_MATTER d then out
                  else if matter = DOC_MAIN_MATTER d then
                    (out @ ''</front>\<newline>'') @ ''<middle>\<newline>''
                  else if matter = DOC_BACK_MATTER d then
                    (out @ ''</middle>\<newline>'') @ ''<back>\<newline>''
                  else out)
      in (options\<lparr>docLevel := matter\<rparr>, out1))"

subsection \<open>References\<close>

text \<open>The loop \<open>for i := options.sectionLevel; i > 0; i--\<close> of \<open>References\<close>.\<close>

function References_loop :: "int \<Rightarrow> Xml2 \<Rightarrow> string \<Rightarrow> Xml2 \<times> string" where
  "References_loop i options out =
     (if i > 0 then
        References_loop (i - 1) (options\<lparr>sectionLevel := sectionLevel options - 1\<rparr>)
          (out @ ''</section>\<newline>'')
      else (options, out))"
  by pat_completeness auto
termination
  by (relation "measure (\<lambda>(i, options, out). nat i)") auto

text \<open>
  \<open>citations\<close> is a Go map, and a \<open>range\<close> over a map visits every entry once, in an
  order the runtime chooses anew for each loop. The three loops of \<open>References\<close> read the
  values only, so each loop is given the sequence of values it visits.
\<close>

fun count_loop :: "'a citation_scheme list \<Rightarrow> int \<Rightarrow> int \<Rightarrow> int \<times> int" where
  "count_loop [] refi refn = (refi, refn)"
| "count_loop (c # cs) refi refn =
     (let refi1 = (if typ' c = CHR ''i'' then refi + 1 else refi);
          refn1 = (if typ' c = CHR ''n'' then refn + 1 else refn)
      in count_loop cs refi1 refn1)"

fun informative_loop ::
  "('a citation_scheme \<Rightarrow> string) \<Rightarrow> 'a citation_scheme list \<Rightarrow> string \<Rightarrow> string" where
  "informative_loop referenceFile [] out = out"
| "informative_loop referenceFile (c # cs) out =
     (if typ' c = CHR ''i'' then
        (let f = filename c;
             f1 = (if f = [] then referenceFile c else f)
         in informative_loop referenceFile cs
              (out @ (CHR 0x09 # ''<xi:include href=\"'' @ f1 @ ''\"/>\<newline>'')))
      else informative_loop referenceFile cs out)"

fun normative_loop ::
  "('a citation_scheme \<Rightarrow> string) \<Rightarrow> 'a citation_scheme list \<Rightarrow> string \<Rightarrow> string" where
  "normative_loop referenceFile [] out = out"
| "normative_loop referenceFile (c # cs) out =
     (if typ' c = CHR ''n'' then
        (let f = filename c;
             f1 = (if f = [] then referenceFile c else f)
         in normative_loop referenceFile cs
              (out @ (CHR 0x09 # ''<xi:include href=\"'' @ f1 @ ''\"/>\<newline>'')))
      else normative_loop referenceFile cs out)"

definition References ::
  "decls \<Rightarrow> ('a citation_scheme \<Rightarrow> string) \<Rightarrow> Xml2 \<Rightarrow> string \<Rightarrow>
   'a citation_scheme list \<times> 'a citation_scheme list \<times> 'a citation_scheme list \<Rightarrow>
   bool \<Rightarrow> Xml2 \<times> string" where
  "References d referenceFile options out citations first =
     (if \<not> first \<or> flags options AND XML_STANDALONE d = 0 then (options, out)
      else
        (let (range1, range2, range3) = citations;
             (options1, out1) = References_loop (sectionLevel options) options out;
             out2 = (if docLevel options1 = DOC_FRONT_MATTER d then
                       (out1 @ ''</front>\<newline>'') @ ''<back>\<newline>''
                     else if docLevel options1 = DOC_MAIN_MATTER d then
                       (out1 @ ''</middle>\<newline>'') @ ''<back>\<newline>''
                     else out1);
             options2 = options1\<lparr>docLevel := DOC_BACK_MATTER d\<rparr>;
             (refi, refn) = count_loop range1 0 0;
             out3 = (if refi + refn > 0 then
                       (let out4 = (if refi > 0 then
                                      informative_loop referenceFile range2
                                        (out2 @ ''<references title=\"Informative References\">\<newline>'')
                                      @ ''</references>\<newline>''
                                    else out2)
                        in if refn > 0 then
                             normative_loop referenceFile range3
                               (out4 @ ''<references title=\"Normative References\">\<newline>'')
                             @ ''</references>\<newline>''
                           else out4)
                     else out2)
         in (options2, out3)))"

subsection \<open>Vocabulary of the statements\<close>

text \<open>\<open>closes n\<close> is the closing tag of a section, written \<open>n\<close> times.\<close>

definition closes :: "nat \<Rightarrow> string" where
  "closes n = concat (replicate n ''</section>\<newline>'')"

text \<open>
  One assignment of the constants the package declares elsewhere, and one renderer state,
  for the examples.
\<close>

definition example_decls :: decls where
  "example_decls =
     \<lparr>XML_STANDALONE = 1, DOC_FRONT_MATTER = 1, DOC_MAIN_MATTER = 2, DOC_BACK_MATTER = 3,
      LIST_TYPE_ORDERED = 1, LIST_TYPE_DEFINITION = 2\<rparr>"

definition example_options :: Xml2 where
  "example_options =
     \<lparr>flags = 1, sectionLevel = 2, docLevel = 2, ial = [], titleBlock = None\<rparr>"

text \<open>
  What \<open>References\<close> writes for one citation, and for one group of citations: nothing for
  an empty group, a titled container of inclusions otherwise.
\<close>

definition xi_include :: "('a citation_scheme \<Rightarrow> string) \<Rightarrow> 'a citation_scheme \<Rightarrow> string" where
  "xi_include referenceFile c =
     CHR 0x09 # ''<xi:include href=\"''
       @ (if filename c = [] then referenceFile c else filename c) @ ''\"/>\<newline>''"

definition references_container ::
  "string \<Rightarrow> ('a citation_scheme \<Rightarrow> string) \<Rightarrow> 'a citation_scheme list \<Rightarrow> string" where
  "references_container ttl referenceFile cs =
     ''<references title=\"'' @ ttl @ ''\">\<newline>''
       @ concat (map (xi_include referenceFile) cs) @ ''</references>\<newline>''"

definition reference_group ::
  "string \<Rightarrow> ('a citation_scheme \<Rightarrow> string) \<Rightarrow> 'a citation_scheme list \<Rightarrow> string" where
  "reference_group ttl referenceFile cs =
     (if cs = [] then [] else references_container ttl referenceFile cs)"

definition informative :: "'a citation_scheme \<Rightarrow> bool" where
  "informative c \<longleftrightarrow> typ' c = CHR ''i''"

definition normative :: "'a citation_scheme \<Rightarrow> bool" where
  "normative c \<longleftrightarrow> typ' c = CHR ''n''"

definition example_citations :: "citation list" where
  "example_citations =
     [\<lparr>typ' = CHR ''n'', filename = []\<rparr>,
      \<lparr>typ' = CHR ''i'', filename = ''b.xml''\<rparr>,
      \<lparr>typ' = CHR ''n'', filename = ''c.xml''\<rparr>]"

text \<open>
  \<open>count_tag p s\<close> is the number of places of the buffer \<open>s\<close> at which the tag \<open>p\<close>
  begins: \<open><section\<close> begins every opening tag of a section, \<open></section>\<close> every
  closing tag. A text is \<open>tag_free\<close> when it holds neither.
\<close>

fun count_tag :: "string \<Rightarrow> string \<Rightarrow> nat" where
  "count_tag p [] = 0"
| "count_tag p (c # cs) = (if prefix p (c # cs) then 1 else 0) + count_tag p cs"

text \<open>
  A document body: \<open>Header\<close> called with \<open>quote = false\<close> for each heading in turn, then
  \<open>DocumentFooter\<close> with \<open>first = true\<close>. \<open>levels_ok\<close> says that every heading level is
  positive and at most one deeper than \<open>sectionLevel\<close> at the time of the call;
  \<open>titles_ok\<close> that no anchor and no title writes a section tag of its own.
\<close>

fun Headers :: "Xml2 \<Rightarrow> string \<Rightarrow> (content \<times> int \<times> string) list \<Rightarrow> Xml2 \<times> string" where
  "Headers options out [] = (options, out)"
| "Headers options out ((text, level, ident) # hs) =
     (let (options1, out1) = Header options out text level ident False
      in Headers options1 out1 hs)"

definition document ::
  "decls \<Rightarrow> Xml2 \<Rightarrow> string \<Rightarrow> (content \<times> int \<times> string) list \<Rightarrow> Xml2 \<times> string" where
  "document d options out hs =
     (let (options1, out1) = Headers options out hs in DocumentFooter d options1 out1 True)"

fun levels_ok :: "int \<Rightarrow> (content \<times> int \<times> string) list \<Rightarrow> bool" where
  "levels_ok sl [] = True"
| "levels_ok sl ((text, level, ident) # hs) =
     (1 \<le> level \<and> level \<le> sl + 1 \<and> levels_ok level hs)"

definition tag_free :: "string \<Rightarrow> bool" where
  "tag_free s \<longleftrightarrow> count_tag ''<section'' s = 0 \<and> count_tag ''</section>'' s = 0"

fun titles_ok :: "(content \<times> int \<times> string) list \<Rightarrow> bool" where
  "titles_ok [] = True"
| "titles_ok ((text, level, ident) # hs) =
     (tag_free ident \<and> (\<forall>opts buf. tag_free (snd (snd (text opts buf)))) \<and> titles_ok hs)"

definition example_title :: content where
  "example_title = (\<lambda>opts buf. (True, opts, ''Title''))"

section \<open>The loops\<close>

declare Header_loop.simps [simp del]
declare DocumentFooter_loop.simps [simp del]
declare References_loop.simps [simp del]

lemma closes_Suc: "closes (Suc n) = ''</section>\<newline>'' @ closes n"
  by (simp add: closes_def)

lemma closes_0: "closes 0 = []"
  by (simp add: closes_def)

lemma Header_loop_closes: "Header_loop i out = out @ closes (nat i)"
proof (induction i out rule: Header_loop.induct)
  case (1 i out)
  show ?case
  proof (cases "i > 0")
    case True
    then have n: "nat i = Suc (nat (i - 1))" by simp
    from True 1 show ?thesis
      by (subst Header_loop.simps) (simp add: n closes_Suc del: append_Cons)
  next
    case False
    then show ?thesis by (subst Header_loop.simps) (simp add: closes_0)
  qed
qed

lemma DocumentFooter_loop_closes:
  "DocumentFooter_loop i options out =
     (options\<lparr>sectionLevel := sectionLevel options - max i 0\<rparr>, out @ closes (nat i))"
proof (induction i options out rule: DocumentFooter_loop.induct)
  case (1 i options out)
  show ?case
  proof (cases "i > 0")
    case True
    then have n: "nat i = Suc (nat (i - 1))" by simp
    from True 1 show ?thesis
      by (subst DocumentFooter_loop.simps) (simp add: n closes_Suc max_def del: append_Cons)
  next
    case False
    then show ?thesis by (subst DocumentFooter_loop.simps) (simp add: closes_0)
  qed
qed

lemma References_loop_closes:
  "References_loop i options out =
     (options\<lparr>sectionLevel := sectionLevel options - max i 0\<rparr>, out @ closes (nat i))"
proof (induction i options out rule: References_loop.induct)
  case (1 i options out)
  show ?case
  proof (cases "i > 0")
    case True
    then have n: "nat i = Suc (nat (i - 1))" by simp
    from True 1 show ?thesis
      by (subst References_loop.simps) (simp add: n closes_Suc max_def del: append_Cons)
  next
    case False
    then show ?thesis by (subst References_loop.simps) (simp add: closes_0)
  qed
qed

lemma count_loop_filter:
  "count_loop cs refi refn =
     (refi + int (length (filter informative cs)), refn + int (length (filter normative cs)))"
  by (induction cs arbitrary: refi refn) (simp_all add: informative_def normative_def Let_def)

lemma informative_loop_map:
  "informative_loop referenceFile cs out =
     out @ concat (map (xi_include referenceFile) (filter informative cs))"
  by (induction cs arbitrary: out) (simp_all add: informative_def xi_include_def Let_def)

lemma normative_loop_map:
  "normative_loop referenceFile cs out =
     out @ concat (map (xi_include referenceFile) (filter normative cs))"
  by (induction cs arbitrary: out) (simp_all add: normative_def xi_include_def Let_def)

lemma length_sum_pos: "xs \<noteq> [] \<Longrightarrow> 0 < int (length xs) + int (length ys)"
  by (cases xs) simp_all

lemma References_unfold:
  assumes "flags options AND XML_STANDALONE d \<noteq> 0"
  shows "References d referenceFile options out (range1, range2, range3) True =
     (options\<lparr>sectionLevel := sectionLevel options - max (sectionLevel options) 0,
              docLevel := DOC_BACK_MATTER d\<rparr>,
      out @ closes (nat (sectionLevel options))
        @ (if docLevel options = DOC_FRONT_MATTER d then ''</front>\<newline><back>\<newline>''
           else if docLevel options = DOC_MAIN_MATTER d then ''</middle>\<newline><back>\<newline>''
           else [])
        @ (if filter informative range1 = [] then []
           else references_container ''Informative References'' referenceFile (filter informative range2))
        @ (if filter normative range1 = [] then []
           else references_container ''Normative References'' referenceFile (filter normative range3)))"
  using assms
  by (simp add: References_def References_loop_closes count_loop_filter informative_loop_map
      normative_loop_map references_container_def Let_def length_sum_pos)

lemma DocumentFooter_in_phase:
  assumes "flags options AND XML_STANDALONE d \<noteq> 0"
    and "sectionLevel options = int k"
    and "distinct [DOC_FRONT_MATTER d, DOC_MAIN_MATTER d, DOC_BACK_MATTER d]"
  shows "(docLevel options = DOC_FRONT_MATTER d \<longrightarrow>
            DocumentFooter d options out True =
              (options\<lparr>sectionLevel := 0\<rparr>,
               out @ closes k @ ''</front>\<newline>'' @ ''</rfc>\<newline>''))
       \<and> (docLevel options = DOC_MAIN_MATTER d \<longrightarrow>
            DocumentFooter d options out True =
              (options\<lparr>sectionLevel := 0\<rparr>,
               out @ closes k @ ''</middle>\<newline>'' @ ''</rfc>\<newline>''))
       \<and> (docLevel options = DOC_BACK_MATTER d \<longrightarrow>
            DocumentFooter d options out True =
              (options\<lparr>sectionLevel := 0\<rparr>,
               out @ closes k @ ''</back>\<newline>'' @ ''</rfc>\<newline>''))"
  using assms by (simp add: DocumentFooter_def DocumentFooter_loop_closes)

section \<open>Counting section tags\<close>

lemma count_tag_append_hd:
  assumes "p \<noteq> []" and "ys = [] \<or> hd ys \<notin> set (tl p)"
  shows "count_tag p (xs @ ys) = count_tag p xs + count_tag p ys"
proof (induction xs)
  case Nil
  show ?case by simp
next
  case (Cons c xs)
  have "prefix p ((c # xs) @ ys) \<longleftrightarrow> prefix p (c # xs)"
  proof
    assume "prefix p ((c # xs) @ ys)"
    then consider "prefix p (c # xs)" | us where "p = (c # xs) @ us" "prefix us ys"
      unfolding prefix_append by blast
    then show "prefix p (c # xs)"
    proof cases
      case 1
      then show ?thesis .
    next
      case 2
      show ?thesis
      proof (cases us)
        case Nil
        with 2 show ?thesis by simp
      next
        case (Cons u us')
        with 2 have "ys \<noteq> []" "hd ys = u" by (cases ys; simp)+
        moreover from 2 Cons have "u \<in> set (tl p)" by simp
        ultimately show ?thesis using assms(2) by simp
      qed
    qed
  next
    assume "prefix p (c # xs)"
    then show "prefix p ((c # xs) @ ys)" by (rule prefix_prefix)
  qed
  with Cons show ?case by simp
qed

lemma count_tag_append_last:
  assumes "p \<noteq> []" and "xs = [] \<or> last xs \<notin> set (butlast p)"
  shows "count_tag p (xs @ ys) = count_tag p xs + count_tag p ys"
  using assms(2)
proof (induction xs)
  case Nil
  show ?case by simp
next
  case (Cons c xs)
  have "prefix p ((c # xs) @ ys) \<longleftrightarrow> prefix p (c # xs)"
  proof
    assume "prefix p ((c # xs) @ ys)"
    then consider "prefix p (c # xs)" | us where "p = (c # xs) @ us" "prefix us ys"
      unfolding prefix_append by blast
    then show "prefix p (c # xs)"
    proof cases
      case 1
      then show ?thesis .
    next
      case 2
      show ?thesis
      proof (cases us)
        case Nil
        with 2 show ?thesis by simp
      next
        case (Cons u us')
        with 2 have "butlast p = (c # xs) @ butlast us" by (simp add: butlast_append)
        then have "last (c # xs) \<in> set (butlast p)" by simp
        with Cons.prems show ?thesis by simp
      qed
    qed
  next
    assume "prefix p (c # xs)"
    then show "prefix p ((c # xs) @ ys)" by (rule prefix_prefix)
  qed
  moreover have "xs = [] \<or> last xs \<notin> set (butlast p)"
    using Cons.prems by (cases xs) auto
  ultimately show ?case using Cons.IH by simp
qed

lemma count_close_closes: "count_tag ''</section>'' (closes n) = n"
  by (induction n) (simp_all add: closes_0 closes_Suc)

lemma count_open_closes: "count_tag ''<section'' (closes n) = 0"
  by (induction n) (simp_all add: closes_0 closes_Suc)


lemma Header_buffer:
  "snd (Header options out text level ident False) =
     ((((out @ closes (if level \<le> sectionLevel options
                       then nat (sectionLevel options - level + 1) else 0))
        @ ((''\<newline><section anchor=\"'' @ ident) @ ''\">\<newline>''))
       @ ''<name>'')
      @ snd (snd (text options
           (out @ closes (if level \<le> sectionLevel options
                          then nat (sectionLevel options - level + 1) else 0)
              @ ''\<newline><section anchor=\"'' @ ident @ ''\">\<newline>'' @ ''<name>''))))
     @ ''</name>\<newline>''"
  by (simp add: Header_def Let_def case_prod_beta Header_loop_closes closes_0)

lemma hd_closes: "closes n = [] \<or> hd (closes n) = CHR ''<''"
  by (cases n) (simp_all add: closes_0 closes_Suc)

lemma count_open_Header:
  assumes "tag_free ident" and "\<And>opts buf. tag_free (snd (snd (text opts buf)))"
  shows "count_tag ''<section'' (snd (Header options out text level ident False)) =
           count_tag ''<section'' out + 1"
proof -
  let ?p = "''<section''"
  have w: "count_tag ?p (snd (snd (text opts buf))) = 0" for opts buf
    using assms(2) by (simp add: tag_free_def)
  have i: "count_tag ?p ident = 0"
    using assms(1) by (simp add: tag_free_def)
  have c: "count_tag ?p (out @ closes n) = count_tag ?p out" for n
    using hd_closes [of n] by (subst count_tag_append_hd) (auto simp: count_open_closes)
  have a: "count_tag ?p ((''\<newline><section anchor=\"'' @ ident) @ ''\">\<newline>'') = 1"
    by (subst count_tag_append_hd, simp, simp, subst count_tag_append_last) (simp_all add: i)
  show ?thesis
    unfolding Header_buffer
    apply (subst count_tag_append_hd, simp, simp)
    apply (subst count_tag_append_last, simp, simp)
    apply (subst count_tag_append_hd, simp, simp)
    apply (subst count_tag_append_hd, simp, simp)
    apply (simp only: c a w)
    apply simp
    done
qed


lemma count_close_Header:
  assumes "tag_free ident" and "\<And>opts buf. tag_free (snd (snd (text opts buf)))"
  shows "count_tag ''</section>'' (snd (Header options out text level ident False)) =
           count_tag ''</section>'' out
             + (if level \<le> sectionLevel options then nat (sectionLevel options - level + 1) else 0)"
proof -
  let ?p = "''</section>''"
  have w: "count_tag ?p (snd (snd (text opts buf))) = 0" for opts buf
    using assms(2) by (simp add: tag_free_def)
  have i: "count_tag ?p ident = 0"
    using assms(1) by (simp add: tag_free_def)
  have c: "count_tag ?p (out @ closes n) = count_tag ?p out + n" for n
    using hd_closes [of n] by (subst count_tag_append_hd) (auto simp: count_close_closes)
  have a: "count_tag ?p ((''\<newline><section anchor=\"'' @ ident) @ ''\">\<newline>'') = 0"
    by (subst count_tag_append_hd, simp, simp, subst count_tag_append_last) (simp_all add: i)
  show ?thesis
    unfolding Header_buffer
    apply (subst count_tag_append_hd, simp, simp)
    apply (subst count_tag_append_last, simp, simp)
    apply (subst count_tag_append_hd, simp, simp)
    apply (subst count_tag_append_hd, simp, simp)
    apply (simp only: c a w)
    apply simp
    done
qed

lemma sectionLevel_Header:
  "sectionLevel (fst (Header options out text level ident False)) = level"
  by (simp add: Header_def Let_def case_prod_beta)

lemma Headers_invariant:
  assumes "levels_ok (sectionLevel options) hs" and "titles_ok hs"
    and "0 \<le> sectionLevel options"
    and "int (count_tag ''<section'' out) = int (count_tag ''</section>'' out) + sectionLevel options"
  shows "0 \<le> sectionLevel (fst (Headers options out hs))
       \<and> int (count_tag ''<section'' (snd (Headers options out hs))) =
           int (count_tag ''</section>'' (snd (Headers options out hs)))
             + sectionLevel (fst (Headers options out hs))"
  using assms
proof (induction hs arbitrary: options out)
  case Nil
  then show ?case by simp
next
  case (Cons h hs)
  obtain tx level ident where h: "h = (tx, level, ident)"
    by (cases h) auto
  let ?H = "Header options out tx level ident False"
  from Cons.prems h have l: "1 \<le> level" "level \<le> sectionLevel options + 1"
    and ls: "levels_ok level hs"
    and t: "tag_free ident" "\<And>opts buf. tag_free (snd (snd (tx opts buf)))"
    and ts: "titles_ok hs"
    by simp_all
  have sl: "sectionLevel (fst ?H) = level"
    by (rule sectionLevel_Header)
  have "int (count_tag ''<section'' (snd ?H)) = int (count_tag ''</section>'' (snd ?H)) + level"
    using Cons.prems(4) l by (simp add: count_open_Header [OF t] count_close_Header [OF t])
  with Cons.IH [of "fst ?H" "snd ?H"] ls ts l(1) sl show ?case
    by (simp add: h case_prod_beta)
qed

lemma count_footer:
  assumes "flags options AND XML_STANDALONE d \<noteq> 0" and "0 \<le> sectionLevel options"
  shows "count_tag ''<section'' (snd (DocumentFooter d options out True)) = count_tag ''<section'' out"
    and "count_tag ''</section>'' (snd (DocumentFooter d options out True)) =
           count_tag ''</section>'' out + nat (sectionLevel options)"
proof -
  let ?m = "if docLevel options = DOC_FRONT_MATTER d then ''</front>\<newline>''
            else if docLevel options = DOC_MAIN_MATTER d then ''</middle>\<newline>''
            else if docLevel options = DOC_BACK_MATTER d then ''</back>\<newline>''
            else []"
  have b: "snd (DocumentFooter d options out True) =
             ((out @ closes (nat (sectionLevel options))) @ ?m) @ ''</rfc>\<newline>''"
    using assms(1) by (simp add: DocumentFooter_def DocumentFooter_loop_closes)
  have m: "?m = [] \<or> hd ?m \<notin> set (tl p)" if "CHR ''<'' \<notin> set (tl p)" for p
    using that by simp
  have mo: "count_tag ''<section'' ?m = 0" and mc: "count_tag ''</section>'' ?m = 0"
    by simp_all
  show "count_tag ''<section'' (snd (DocumentFooter d options out True)) = count_tag ''<section'' out"
    unfolding b
    apply (subst count_tag_append_hd, simp, simp)
    apply (subst count_tag_append_hd, simp, rule m, simp)
    apply (subst count_tag_append_hd, simp)
    using hd_closes [of "nat (sectionLevel options)"] apply auto[1]
    apply (simp only: mo count_open_closes)
    apply simp
    done
  show "count_tag ''</section>'' (snd (DocumentFooter d options out True)) =
           count_tag ''</section>'' out + nat (sectionLevel options)"
    unfolding b
    apply (subst count_tag_append_hd, simp, simp)
    apply (subst count_tag_append_hd, simp, rule m, simp)
    apply (subst count_tag_append_hd, simp)
    using hd_closes [of "nat (sectionLevel options)"] apply auto[1]
    apply (simp only: mc count_close_closes)
    apply simp
    done
qed

text \<open>
  Without a skipped level \<open>sectionLevel\<close> is the number of open sections after every
  heading, and the footer closes them all.
\<close>

lemma balanced_without_skip:
  assumes "levels_ok (sectionLevel options) hs" and "titles_ok hs"
    and "0 \<le> sectionLevel options"
    and "int (count_tag ''<section'' out) = int (count_tag ''</section>'' out) + sectionLevel options"
    and "flags (fst (Headers options out hs)) AND XML_STANDALONE d \<noteq> 0"
  shows "count_tag ''</section>'' (snd (document d options out hs)) =
           count_tag ''<section'' (snd (document d options out hs))
       \<and> int (count_tag ''</section>'' (snd (document d options out hs)))
           - int (count_tag ''</section>'' (snd (Headers options out hs))) =
           sectionLevel (fst (Headers options out hs))"
proof -
  let ?o = "fst (Headers options out hs)" and ?b = "snd (Headers options out hs)"
  have d: "document d options out hs = DocumentFooter d ?o ?b True"
    by (simp add: document_def case_prod_beta)
  from Headers_invariant [OF assms(1-4)]
  have n: "0 \<le> sectionLevel ?o"
    and i: "int (count_tag ''<section'' ?b) = int (count_tag ''</section>'' ?b) + sectionLevel ?o"
    by simp_all
  show ?thesis
    using i n unfolding d count_footer [OF assms(5) n] by simp
qed

section \<open>The claims\<close>

text \<open>
  C1 (the code departs from it): the closing section tags of a document should be as many
  as the opening ones, and \<open>Header\<close> itself says that \<open>sectionLevel\<close> holds the number of
  open sections, to know what to close at the end. A heading two levels deeper than the
  one before opens one section and sets \<open>sectionLevel\<close> to its level: after headings of
  levels 1 and 3 two sections are open and \<open>sectionLevel\<close> is 3, and the footer closes
  three.
\<close>

theorem sections_unbalanced_after_skip:
  "sectionLevel (fst (Headers (Xml2Renderer 1\<lparr>docLevel := 2\<rparr>) []
        [(example_title, 1, ''a''), (example_title, 3, ''b'')])) = 3
   \<and> count_tag ''<section''
     (snd (Headers (Xml2Renderer 1\<lparr>docLevel := 2\<rparr>) []
        [(example_title, 1, ''a''), (example_title, 3, ''b'')])) = 2
   \<and> count_tag ''</section>''
     (snd (Headers (Xml2Renderer 1\<lparr>docLevel := 2\<rparr>) []
        [(example_title, 1, ''a''), (example_title, 3, ''b'')])) = 0
   \<and> snd (document example_decls (Xml2Renderer 1\<lparr>docLevel := 2\<rparr>) []
        [(example_title, 1, ''a''), (example_title, 3, ''b'')]) =
       ''\<newline><section anchor=\"a\">\<newline><name>Title</name>\<newline>''
         @ ''\<newline><section anchor=\"b\">\<newline><name>Title</name>\<newline>''
         @ ''</section>\<newline></section>\<newline></section>\<newline></middle>\<newline></rfc>\<newline>''
   \<and> count_tag ''<section''
     (snd (document example_decls (Xml2Renderer 1\<lparr>docLevel := 2\<rparr>) []
        [(example_title, 1, ''a''), (example_title, 3, ''b'')])) = 2
   \<and> count_tag ''</section>''
     (snd (document example_decls (Xml2Renderer 1\<lparr>docLevel := 2\<rparr>) []
        [(example_title, 1, ''a''), (example_title, 3, ''b'')])) = 3"
  by (simp add: document_def Header_def example_title_def Xml2Renderer_def example_decls_def
      DocumentFooter_def DocumentFooter_loop_closes closes_def eval_nat_numeral)

text \<open>
  C2: a \<open>Header\<close> call with \<open>quote = false\<close> at a level not above \<open>sectionLevel\<close> first
  writes \<open>sectionLevel - level + 1\<close> closing section tags; at a deeper level, however much
  deeper, it writes none and no section in between. Then it opens one section with the
  anchor, writes the title inside \<open><name>\<close>, and sets \<open>sectionLevel\<close> to the level.
\<close>

theorem Header_section:
  "(level \<le> sectionLevel options \<longrightarrow>
      Header options out text level ident False =
        (let pre = out @ closes (nat (sectionLevel options - level + 1))
                     @ ''\<newline><section anchor=\"'' @ ident @ ''\">\<newline>'' @ ''<name>'';
             (r, options1, w) = text options pre
         in (options1\<lparr>sectionLevel := level\<rparr>, pre @ w @ ''</name>\<newline>'')))
   \<and> (sectionLevel options < level \<longrightarrow>
      Header options out text level ident False =
        (let pre = out @ ''\<newline><section anchor=\"'' @ ident @ ''\">\<newline>'' @ ''<name>'';
             (r, options1, w) = text options pre
         in (options1\<lparr>sectionLevel := level\<rparr>, pre @ w @ ''</name>\<newline>'')))"
  by (simp add: Header_def Let_def Header_loop_closes case_prod_beta)

theorem Header_section_witness:
  "1 \<le> sectionLevel example_options
   \<and> Header example_options ''<t>a</t>'' (\<lambda>opts buf. (True, opts, ''Intro'')) 1 ''intro'' False =
       (example_options\<lparr>sectionLevel := 1\<rparr>,
        ''<t>a</t></section>\<newline></section>\<newline>\<newline><section anchor=\"intro\">\<newline><name>Intro</name>\<newline>'')
   \<and> sectionLevel example_options < 4
   \<and> Header example_options ''<t>a</t>'' (\<lambda>opts buf. (True, opts, ''Deep'')) 4 ''deep'' False =
       (example_options\<lparr>sectionLevel := 4\<rparr>,
        ''<t>a</t>\<newline><section anchor=\"deep\">\<newline><name>Deep</name>\<newline>'')"
  using Header_section [of 1 example_options "''<t>a</t>''" "\<lambda>opts buf. (True, opts, ''Intro'')" "''intro''"]
    Header_section [of 4 example_options "''<t>a</t>''" "\<lambda>opts buf. (True, opts, ''Deep'')" "''deep''"]
  by (simp add: example_options_def closes_def numeral_2_eq_2)

text \<open>
  C4: \<open>DocumentHeader\<close>, \<open>DocumentFooter\<close> and \<open>References\<close> called with \<open>first = false\<close>, or
  on a renderer without the standalone flag, return the buffer and the renderer state
  (with \<open>sectionLevel\<close>, \<open>docLevel\<close> and the pending IALs) as they were.
\<close>

theorem noop_unless_first_and_standalone:
  assumes "\<not> first \<or> flags options AND XML_STANDALONE d = 0"
  shows "DocumentHeader d options out first = (options, out)
       \<and> DocumentFooter d options out first = (options, out)
       \<and> References d referenceFile options out citations first = (options, out)"
  using assms by (simp add: DocumentHeader_def DocumentFooter_def References_def)

theorem noop_unless_first_and_standalone_witness:
  "DocumentHeader example_decls example_options ''<t>a</t>'' False = (example_options, ''<t>a</t>'')
   \<and> DocumentFooter example_decls example_options ''<t>a</t>'' False = (example_options, ''<t>a</t>'')
   \<and> References example_decls (\<lambda>c::citation. ''reference.xml'') example_options ''<t>a</t>''
         ([], [], []) False = (example_options, ''<t>a</t>'')
   \<and> flags (example_options\<lparr>flags := 0\<rparr>) AND XML_STANDALONE example_decls = 0
   \<and> DocumentFooter example_decls (example_options\<lparr>flags := 0\<rparr>) ''<t>a</t>'' True =
       (example_options\<lparr>flags := 0\<rparr>, ''<t>a</t>'')"
  using noop_unless_first_and_standalone [of False example_options example_decls "''<t>a</t>''"
      "\<lambda>c::citation. ''reference.xml''" "([], [], [])"]
    noop_unless_first_and_standalone [of True "example_options\<lparr>flags := 0\<rparr>" example_decls
      "''<t>a</t>''" "\<lambda>c::citation. ''reference.xml''" "([], [], [])"]
  by simp

text \<open>
  C8: a \<open>List\<close> call, whatever its flags and start value, and a \<open>Paragraph\<close> call whose
  content callback returns false leave the buffer as it was before the call: the opening
  tag and what the callback wrote are truncated away, and no closing tag is written.
\<close>

theorem rollback_on_empty_content:
  assumes "\<And>b. \<not> fst (text options b)"
  shows "snd (List' d options out text lflags start) = out
       \<and> snd (Paragraph options out text) = out"
proof
  show "snd (List' d options out text lflags start) = out"
    using assms by (simp add: List'_def Let_def case_prod_beta)
  show "snd (Paragraph options out text) = out"
    using assms by (simp add: Paragraph_def Let_def case_prod_beta)
qed

theorem rollback_on_empty_content_witness:
  "(\<forall>b. \<not> fst ((\<lambda>opts buf. (False, opts, ''junk'')) example_options b))
   \<and> snd (List' example_decls example_options ''<t>a</t>''
            (\<lambda>opts buf. (False, opts, ''junk'')) 1 3) = ''<t>a</t>''
   \<and> snd (Paragraph example_options ''<t>a</t>'' (\<lambda>opts buf. (False, opts, ''junk''))) = ''<t>a</t>''"
  using rollback_on_empty_content [of "\<lambda>opts buf. (False, opts, ''junk'')" example_options
      example_decls "''<t>a</t>''" 1 3]
  by simp

text \<open>
  C9: \<open>Image\<close> writes a hyperlink wrapper holding the link and the alt text when the link
  begins with \<open>http://\<close> or \<open>https://\<close>, and an embedded-graphic wrapper holding the link
  for every other link.
\<close>

theorem Image_wrapper:
  "(prefix ''http://'' link \<or> prefix ''https://'' link \<longrightarrow>
      Image' options out link ttl alt =
        (options, out @ (CHR 0x5C # ''href{'') @ link @ ''}{'' @ alt @ ''}''))
   \<and> (\<not> (prefix ''http://'' link \<or> prefix ''https://'' link) \<longrightarrow>
      Image' options out link ttl alt =
        (options, out @ (CHR 0x5C # ''includegraphics{'') @ link @ ''}''))"
  by (simp add: Image'_def)

theorem Image_wrapper_witness:
  "prefix ''https://'' ''https://a.org/b.png''
   \<and> Image' example_options ''<t>'' ''https://a.org/b.png'' ''title'' ''alt'' =
       (example_options, ''<t>'' @ (CHR 0x5C # ''href{https://a.org/b.png}{alt}''))
   \<and> \<not> (prefix ''http://'' ''fig/b.png'' \<or> prefix ''https://'' ''fig/b.png'')
   \<and> Image' example_options ''<t>'' ''fig/b.png'' ''title'' ''alt'' =
       (example_options, ''<t>'' @ (CHR 0x5C # ''includegraphics{fig/b.png}''))"
  using Image_wrapper [of "''https://a.org/b.png''" example_options "''<t>''" "''title''" "''alt''"]
    Image_wrapper [of "''fig/b.png''" example_options "''<t>''" "''title''" "''alt''"]
  by simp

text \<open>
  C3 (the code departs from it): without the standalone flag no document-level tag should
  reach the buffer, and \<open>DocumentHeader\<close>, \<open>DocumentFooter\<close> and \<open>References\<close> do test
  the flag; \<open>DocumentMatter\<close> does not, and writes the matter transition all the same.
\<close>

theorem DocumentMatter_without_standalone:
  "flags (example_options\<lparr>flags := 0, docLevel := 1\<rparr>) AND XML_STANDALONE example_decls = 0
   \<and> DocumentMatter example_decls (example_options\<lparr>flags := 0, docLevel := 1\<rparr>) ''<t>a</t>''
         (DOC_MAIN_MATTER example_decls) =
       (example_options\<lparr>flags := 0, docLevel := 2\<rparr>,
        ''<t>a</t></front>\<newline><middle>\<newline>'')"
  by (simp add: DocumentMatter_def example_options_def example_decls_def)

text \<open>
  C5 (the code departs from it): the footer should close the sections, then the matter
  that is open, then the document. Its \<open>switch\<close> has no case for a \<open>docLevel\<close> that is
  none of the three matter constants: there it writes the closing section tags and
  \<open></rfc>\<close> only. \<open>Xml2Renderer\<close> leaves \<open>docLevel\<close> at 0, which is such a value when the
  constants are 1, 2 and 3, although the front matter counts as open from the start
  (\<open>DocumentMatter\<close> says so, and \<open>TitleBlockTOML\<close> opens \<open><front>\<close> without touching
  \<open>docLevel\<close>): in a document without a matter marker \<open><front>\<close> is never closed.
\<close>

theorem DocumentFooter_leaves_front_open:
  assumes "flags options AND XML_STANDALONE d \<noteq> 0"
    and "docLevel options \<notin> {DOC_FRONT_MATTER d, DOC_MAIN_MATTER d, DOC_BACK_MATTER d}"
  shows "DocumentFooter d options out True =
           (options\<lparr>sectionLevel := sectionLevel options - max (sectionLevel options) 0\<rparr>,
            out @ closes (nat (sectionLevel options)) @ ''</rfc>\<newline>'')"
  using assms by (simp add: DocumentFooter_def DocumentFooter_loop_closes)

theorem DocumentFooter_leaves_front_open_witness:
  "DocumentFooter example_decls (Xml2Renderer 1\<lparr>sectionLevel := 1\<rparr>)
      ''<front>\<newline>\<newline><section anchor=\"a\">\<newline><name>Title</name>\<newline>'' True =
     (Xml2Renderer 1,
      ''<front>\<newline>\<newline><section anchor=\"a\">\<newline><name>Title</name>\<newline>''
        @ ''</section>\<newline>'' @ ''</rfc>\<newline>'')"
proof -
  have s: "flags (Xml2Renderer 1\<lparr>sectionLevel := 1\<rparr>) AND XML_STANDALONE example_decls \<noteq> 0"
    by (simp add: Xml2Renderer_def example_decls_def)
  have p: "docLevel (Xml2Renderer 1\<lparr>sectionLevel := 1\<rparr>)
      \<notin> {DOC_FRONT_MATTER example_decls, DOC_MAIN_MATTER example_decls,
         DOC_BACK_MATTER example_decls}"
    by (simp add: Xml2Renderer_def example_decls_def)
  show ?thesis
    unfolding DocumentFooter_leaves_front_open [OF s p]
    by (simp add: Xml2Renderer_def closes_def)
qed

text \<open>
  C6 (the code departs from it): \<open>References\<close> should close the sections, close the matter
  that is open and open the back matter. When \<open>docLevel\<close> is none of the three matter
  constants, as \<open>Xml2Renderer\<close> leaves it (the same defect as in the footer), it closes
  the sections, writes neither \<open></front>\<close> nor \<open><back>\<close>, writes the reference groups
  and still sets \<open>docLevel\<close> to \<open>DOC_BACK_MATTER\<close>, so that the footer later closes a
  \<open><back>\<close> that was never opened.
\<close>

theorem References_never_opens_back:
  assumes "flags options AND XML_STANDALONE d \<noteq> 0"
    and "docLevel options \<notin> {DOC_FRONT_MATTER d, DOC_MAIN_MATTER d, DOC_BACK_MATTER d}"
    and "distinct [DOC_FRONT_MATTER d, DOC_MAIN_MATTER d, DOC_BACK_MATTER d]"
  shows "References d referenceFile options out (range1, range2, range3) True =
           (options\<lparr>sectionLevel := sectionLevel options - max (sectionLevel options) 0,
                    docLevel := DOC_BACK_MATTER d\<rparr>,
            out @ closes (nat (sectionLevel options))
              @ (if filter informative range1 = [] then []
                 else references_container ''Informative References'' referenceFile
                        (filter informative range2))
              @ (if filter normative range1 = [] then []
                 else references_container ''Normative References'' referenceFile
                        (filter normative range3)))
       \<and> snd (DocumentFooter d
              (fst (References d referenceFile options out (range1, range2, range3) True))
              out1 True) =
           out1 @ ''</back>\<newline>'' @ ''</rfc>\<newline>''"
proof
  show r: "References d referenceFile options out (range1, range2, range3) True =
           (options\<lparr>sectionLevel := sectionLevel options - max (sectionLevel options) 0,
                    docLevel := DOC_BACK_MATTER d\<rparr>,
            out @ closes (nat (sectionLevel options))
              @ (if filter informative range1 = [] then []
                 else references_container ''Informative References'' referenceFile
                        (filter informative range2))
              @ (if filter normative range1 = [] then []
                 else references_container ''Normative References'' referenceFile
                        (filter normative range3)))"
    using assms(2) unfolding References_unfold [OF assms(1)] by simp
  show "snd (DocumentFooter d
              (fst (References d referenceFile options out (range1, range2, range3) True))
              out1 True) =
           out1 @ ''</back>\<newline>'' @ ''</rfc>\<newline>''"
    unfolding r using assms(1,3)
    by (simp add: DocumentFooter_def DocumentFooter_loop_closes closes_0 max_def)
qed

theorem References_never_opens_back_witness:
  "References example_decls (\<lambda>c. ''ref.xml'') (Xml2Renderer 1\<lparr>sectionLevel := 1\<rparr>)
      ''<front>\<newline>\<newline><section anchor=\"a\">\<newline><name>Title</name>\<newline>''
      ([\<lparr>typ' = CHR ''i'', filename = ''b.xml''\<rparr>], [\<lparr>typ' = CHR ''i'', filename = ''b.xml''\<rparr>],
       [\<lparr>typ' = CHR ''i'', filename = ''b.xml''\<rparr>]) True =
     (Xml2Renderer 1\<lparr>docLevel := DOC_BACK_MATTER example_decls\<rparr>,
      ''<front>\<newline>\<newline><section anchor=\"a\">\<newline><name>Title</name>\<newline>''
        @ ''</section>\<newline>''
        @ ''<references title=\"Informative References\">\<newline>''
        @ (CHR 0x09 # ''<xi:include href=\"b.xml\"/>\<newline>'')
        @ ''</references>\<newline>'')
   \<and> snd (DocumentFooter example_decls
        (Xml2Renderer 1\<lparr>docLevel := DOC_BACK_MATTER example_decls\<rparr>) [] True) =
       ''</back>\<newline></rfc>\<newline>''"
proof -
  let ?o = "Xml2Renderer 1\<lparr>sectionLevel := 1\<rparr>"
  let ?b = "[\<lparr>typ' = CHR ''i'', filename = ''b.xml''\<rparr>]"
  have s: "flags ?o AND XML_STANDALONE example_decls \<noteq> 0"
    by (simp add: Xml2Renderer_def example_decls_def)
  have p: "docLevel ?o \<notin> {DOC_FRONT_MATTER example_decls, DOC_MAIN_MATTER example_decls,
         DOC_BACK_MATTER example_decls}"
    by (simp add: Xml2Renderer_def example_decls_def)
  have d: "distinct [DOC_FRONT_MATTER example_decls, DOC_MAIN_MATTER example_decls,
         DOC_BACK_MATTER example_decls]"
    by (simp add: example_decls_def)
  note t = References_never_opens_back [of ?o example_decls "\<lambda>c. ''ref.xml''"
      "''<front>\<newline>\<newline><section anchor=\"a\">\<newline><name>Title</name>\<newline>''"
      ?b ?b ?b "[]", OF s p d]
  have e: "fst (References example_decls (\<lambda>c. ''ref.xml'') ?o
      ''<front>\<newline>\<newline><section anchor=\"a\">\<newline><name>Title</name>\<newline>''
      (?b, ?b, ?b) True) = Xml2Renderer 1\<lparr>docLevel := DOC_BACK_MATTER example_decls\<rparr>"
    unfolding t [THEN conjunct1] by (simp add: Xml2Renderer_def)
  show ?thesis
    using t unfolding e
    by (simp add: informative_def normative_def references_container_def xi_include_def
        closes_def Xml2Renderer_def)
qed

text \<open>
  C7: whatever the order in which the three loops visit the citations \<open>cs\<close>, the buffer
  after \<open>References\<close> is the buffer before it, the closing section tags, the matter
  transition, the group of the informative citations and then the group of the normative
  ones; a group without citations is not written at all, and each inclusion takes the
  citation's file name, or the name \<open>referenceFile\<close> derives when that is empty.
\<close>

theorem References_groups:
  assumes "flags options AND XML_STANDALONE d \<noteq> 0"
    and "mset range1 = mset cs" and "mset range2 = mset cs" and "mset range3 = mset cs"
  shows "snd (References d referenceFile options out (range1, range2, range3) True) =
           out @ closes (nat (sectionLevel options))
             @ (if docLevel options = DOC_FRONT_MATTER d then ''</front>\<newline><back>\<newline>''
                else if docLevel options = DOC_MAIN_MATTER d then ''</middle>\<newline><back>\<newline>''
                else [])
             @ reference_group ''Informative References'' referenceFile (filter informative range2)
             @ reference_group ''Normative References'' referenceFile (filter normative range3)
       \<and> mset (filter informative range2) = mset (filter informative cs)
       \<and> mset (filter normative range3) = mset (filter normative cs)"
proof (intro conjI)
  show "mset (filter informative range2) = mset (filter informative cs)"
    using assms(3) by (metis mset_filter)
  show "mset (filter normative range3) = mset (filter normative cs)"
    using assms(4) by (metis mset_filter)
  have "mset (filter informative range1) = mset (filter informative range2)"
    using assms(2,3) by (metis mset_filter)
  then have i1: "filter informative range1 = [] \<longleftrightarrow> filter informative range2 = []"
    by (metis mset_zero_iff)
  have "mset (filter normative range1) = mset (filter normative range3)"
    using assms(2,4) by (metis mset_filter)
  then have n1: "filter normative range1 = [] \<longleftrightarrow> filter normative range3 = []"
    by (metis mset_zero_iff)
  show "snd (References d referenceFile options out (range1, range2, range3) True) =
           out @ closes (nat (sectionLevel options))
             @ (if docLevel options = DOC_FRONT_MATTER d then ''</front>\<newline><back>\<newline>''
                else if docLevel options = DOC_MAIN_MATTER d then ''</middle>\<newline><back>\<newline>''
                else [])
             @ reference_group ''Informative References'' referenceFile (filter informative range2)
             @ reference_group ''Normative References'' referenceFile (filter normative range3)"
    unfolding References_unfold [OF assms(1)] by (simp add: reference_group_def i1 n1)
qed

theorem References_groups_witness:
  "snd (References example_decls (\<lambda>c. ''ref.xml'') example_options ''<t>a</t>''
          (example_citations, rev example_citations, example_citations) True) =
     ''<t>a</t></section>\<newline></section>\<newline></middle>\<newline><back>\<newline>''
       @ ''<references title=\"Informative References\">\<newline>''
       @ (CHR 0x09 # ''<xi:include href=\"b.xml\"/>\<newline>'')
       @ ''</references>\<newline>''
       @ ''<references title=\"Normative References\">\<newline>''
       @ (CHR 0x09 # ''<xi:include href=\"ref.xml\"/>\<newline>'')
       @ (CHR 0x09 # ''<xi:include href=\"c.xml\"/>\<newline>'')
       @ ''</references>\<newline>''
   \<and> snd (References example_decls (\<lambda>c. ''ref.xml'') example_options ''<t>a</t>''
          ([\<lparr>typ' = CHR ''i'', filename = ''b.xml''\<rparr>], [\<lparr>typ' = CHR ''i'', filename = ''b.xml''\<rparr>],
           [\<lparr>typ' = CHR ''i'', filename = ''b.xml''\<rparr>]) True) =
     ''<t>a</t></section>\<newline></section>\<newline></middle>\<newline><back>\<newline>''
       @ ''<references title=\"Informative References\">\<newline>''
       @ (CHR 0x09 # ''<xi:include href=\"b.xml\"/>\<newline>'')
       @ ''</references>\<newline>''
   \<and> snd (References example_decls (\<lambda>c::citation. ''ref.xml'') example_options ''<t>a</t>''
          ([], [], []) True) =
     ''<t>a</t></section>\<newline></section>\<newline></middle>\<newline><back>\<newline>''"
proof -
  have s: "flags example_options AND XML_STANDALONE example_decls \<noteq> 0"
    by (simp add: example_options_def example_decls_def)
  have p: "mset (rev example_citations) = mset example_citations"
    by simp
  let ?b = "[\<lparr>typ' = CHR ''i'', filename = ''b.xml''\<rparr>]"
  note a = References_groups [OF s refl p refl,
      where referenceFile = "\<lambda>c. ''ref.xml''" and out = "''<t>a</t>''"]
  note b = References_groups [OF s refl refl refl,
      where cs = ?b and referenceFile = "\<lambda>c. ''ref.xml''" and out = "''<t>a</t>''"]
  note c = References_groups [OF s refl refl refl,
      where cs = "[]::citation list" and referenceFile = "\<lambda>c. ''ref.xml''"
        and out = "''<t>a</t>''"]
  show ?thesis
    using a b c
    by (simp add: example_citations_def informative_def normative_def reference_group_def
        references_container_def xi_include_def example_options_def example_decls_def
        closes_def numeral_2_eq_2)
qed

text \<open>
  C10: \<open>Header\<close> does not look at what the title callback returns: replacing the returned
  flag by any other changes nothing, the \<open><name>\<close> wrapper is written around the title
  in the quoted case, and in the other case the section is opened and \<open>sectionLevel\<close> is set.
\<close>

theorem Header_ignores_callback_result:
  "Header options out (\<lambda>opts buf. (f (fst (text opts buf)), snd (text opts buf))) level ident quote =
     Header options out text level ident quote
   \<and> (quote \<longrightarrow>
        Header options out text level ident True =
          (fst (snd (text options (out @ ''<name>''))),
           out @ ''<name>'' @ snd (snd (text options (out @ ''<name>''))) @ ''</name>\<newline>''))
   \<and> (\<not> quote \<longrightarrow>
        sectionLevel (fst (Header options out text level ident False)) = level
        \<and> (\<exists>n. let pre = out @ closes n @ ''\<newline><section anchor=\"'' @ ident @ ''\">\<newline>'' @ ''<name>''
             in snd (Header options out text level ident False) =
                  pre @ snd (snd (text options pre)) @ ''</name>\<newline>''))"
proof (intro conjI impI)
  show "Header options out (\<lambda>opts buf. (f (fst (text opts buf)), snd (text opts buf))) level ident quote =
     Header options out text level ident quote"
    by (simp add: Header_def Let_def case_prod_beta)
  show "Header options out text level ident True =
          (fst (snd (text options (out @ ''<name>''))),
           out @ ''<name>'' @ snd (snd (text options (out @ ''<name>''))) @ ''</name>\<newline>'')"
    by (simp add: Header_def Let_def case_prod_beta)
  show "sectionLevel (fst (Header options out text level ident False)) = level"
    by (simp add: Header_def Let_def case_prod_beta)
  show "\<exists>n. let pre = out @ closes n @ ''\<newline><section anchor=\"'' @ ident @ ''\">\<newline>'' @ ''<name>''
             in snd (Header options out text level ident False) =
                  pre @ snd (snd (text options pre)) @ ''</name>\<newline>''"
  proof (cases "level \<le> sectionLevel options")
    case True
    then show ?thesis
      by (intro exI [of _ "nat (sectionLevel options - level + 1)"])
         (simp add: Header_def Let_def case_prod_beta Header_loop_closes)
  next
    case False
    then show ?thesis
      by (intro exI [of _ 0]) (simp add: Header_def Let_def case_prod_beta closes_0)
  qed
qed

theorem Header_ignores_callback_result_witness:
  "Header example_options ''<t>a</t>'' (\<lambda>opts buf. (False, opts, ''T'')) 3 ''s'' False =
     Header example_options ''<t>a</t>'' (\<lambda>opts buf. (True, opts, ''T'')) 3 ''s'' False
   \<and> sectionLevel (fst (Header example_options ''<t>a</t>'' (\<lambda>opts buf. (False, opts, ''T'')) 3 ''s'' False)) = 3
   \<and> Header example_options ''<t>a</t>'' (\<lambda>opts buf. (False, opts, ''T'')) 3 ''s'' True =
       (example_options, ''<t>a</t><name>T</name>\<newline>'')"
  using Header_ignores_callback_result [of example_options "''<t>a</t>''" "\<lambda>b. True"
      "\<lambda>opts buf. (False, opts, ''T'')" 3 "''s''" False]
    Header_ignores_callback_result [of example_options "''<t>a</t>''" "\<lambda>b. True"
      "\<lambda>opts buf. (False, opts, ''T'')" 3 "''s''" True]
  by simp

end
